theory Spec2Isabelle
  imports Main "HOL-Library.Word" "HOL-Library.DAList"
begin

section \<open>The SNMP agent of \<open>agent.go\<close>\<close>

text \<open>
  The development embeds package \<open>lzsnmp\<close> (file \<open>agent.go\<close>): the \<open>Agent\<close> struct with
  its two Go maps \<open>handlers\<close> and \<open>staticVals\<close>, its \<open>sync.RWMutex\<close>, and the methods
  that register, unregister, list and bind OIDs.

  Conventions.
  \<^item> A method with pointer receiver \<open>a *Agent\<close> takes the agent and yields the agent it
    leaves behind.
  \<^item> The logger is an injected collaborator (\<open>*log.Logger\<close>); its calls change no field of
    \<open>Agent\<close> and are left out, so a branch of the source that only logs (the
    "already registered, overwriting" warnings) has no counterpart here.
  \<^item> A Go map is an association list with distinct keys (\<open>DAList\<close>). The order of the list
    stands for one of the orders in which \<open>range\<close> may visit the map.
\<close>

subsection \<open>Values, errors, type tags\<close>

text \<open>\<open>interface{}\<close>: the values the examples register, and \<open>nil\<close>.\<close>

datatype iface = INil | IString string | IInt int | IUint nat

text \<open>Every error of the file is built by \<open>fmt.Errorf\<close> from a message.\<close>

datatype error = Errorf string

text \<open>\<open>gosnmp.Asn1BER\<close>: the tags the README lists as supported.\<close>

datatype Asn1BER = Integer | OctetString | Counter32 | Counter64 | Gauge32 | TimeTicks | IPAddress

text \<open>
  \<open>type ValueHandler func() (interface{}, error)\<close>. A handler may read and change
  anything of the host process (a counter, the clock); \<open>'w\<close> is that state. It returns
  Go's pair of a value and an error (\<open>None\<close> is the \<open>nil\<close> error). A \<open>nil\<close> handler,
  whose call panics, is not a value of this type.
\<close>

type_synonym 'w ValueHandler = "'w \<Rightarrow> (iface \<times> error option) \<times> 'w"

subsection \<open>The structs\<close>

record Config =
  PEN :: "32 word"
  ListenAddr :: string
  Community :: string
  LogLevel :: int

text \<open>
  The fields of \<open>GoSNMPServer.PDUValueControlItem\<close>, \<open>SubAgent\<close> and \<open>MasterAgent\<close> that
  \<open>agent.go\<close> sets. \<open>OnGet\<close> has the type of a handler.
\<close>

record 'w PDUValueControlItem =
  OID :: string
  Type :: Asn1BER
  OnGet :: "'w ValueHandler"

record 'w SubAgent =
  CommunityIDs :: "string list"
  OIDs :: "'w PDUValueControlItem list"

record 'w MasterAgent =
  SubAgents :: "'w SubAgent list"

text \<open>
  \<open>sync.RWMutex\<close>: held by one writer or by any number of readers. A goroutine that asks
  for it while it is not available waits until the holder releases it.
\<close>

record RWMutex =
  writer :: bool
  readers :: nat

text \<open>
  \<open>server\<close> is \<open>nil\<close> until \<open>Start\<close>. The field \<open>snmpServer\<close> is built by
  \<open>GoSNMPServer.NewSNMPServer(master)\<close> from a copy of the master agent that shares its
  \<open>*SubAgent\<close> pointers: the item list of \<open>server.SubAgents[0]\<close> is the list the
  transport serves, and the one list the model keeps.
\<close>

record 'w Agent =
  config :: Config
  server :: "'w MasterAgent option"
  oidPrefix :: string
  handlers :: "(string, 'w ValueHandler) alist"
  staticVals :: "(string, iface) alist"
  mu :: RWMutex

text \<open>
  A call either returns, with the agent it leaves and its result, or it waits for the
  mutex; \<open>Blocks\<close> keeps the agent as it is at that moment.
\<close>

datatype ('s, 'r) run = Returns 's 'r | Blocks 's

fun final :: "('s, 'r) run \<Rightarrow> 's" where
  "final (Returns s r) = s"
| "final (Blocks s) = s"

fun returned :: "('s, 'r) run \<Rightarrow> 'r option" where
  "returned (Returns s r) = Some r"
| "returned (Blocks s) = None"

subsection \<open>The mutex\<close>

definition unlocked :: RWMutex where
  "unlocked = \<lparr>writer = False, readers = 0\<rparr>"

text \<open>
  \<open>None\<close>: the mutex is not available and the caller waits. \<open>Unlock\<close> and \<open>RUnlock\<close> are
  only ever run by the \<open>defer\<close> that follows a successful \<open>Lock\<close> or \<open>RLock\<close>, so their
  fatal error on a mutex that is not held is not reached.
\<close>

definition Lock :: "RWMutex \<Rightarrow> RWMutex option" where
  "Lock m = (if writer m \<or> 0 < readers m then None else Some (m\<lparr>writer := True\<rparr>))"

definition Unlock :: "RWMutex \<Rightarrow> RWMutex" where
  "Unlock m = m\<lparr>writer := False\<rparr>"

definition RLock :: "RWMutex \<Rightarrow> RWMutex option" where
  "RLock m = (if writer m then None else Some (m\<lparr>readers := Suc (readers m)\<rparr>))"

definition RUnlock :: "RWMutex \<Rightarrow> RWMutex" where
  "RUnlock m = m\<lparr>readers := readers m - 1\<rparr>"

subsection \<open>Construction\<close>

text \<open>\<open>fmt.Sprintf("%d", n)\<close> for an unsigned \<open>n\<close>.\<close>

definition digit :: "nat \<Rightarrow> char" where
  "digit d = ''0123456789'' ! d"

fun decimal :: "nat \<Rightarrow> string" where
  "decimal n = (if n < 10 then [digit n] else decimal (n div 10) @ [digit (n mod 10)])"

declare decimal.simps [simp del]

definition NewAgent :: "Config \<Rightarrow> 'w Agent option \<times> error option" where
  "NewAgent cfg =
     (if PEN cfg = 0 then
        (None, Some (Errorf ''PEN (Private Enterprise Number) is required''))
      else
        let cfg = (if ListenAddr cfg = [] then cfg\<lparr>ListenAddr := ''0.0.0.0:161''\<rparr> else cfg);
            cfg = (if Community cfg = [] then cfg\<lparr>Community := ''public''\<rparr> else cfg);
            oidPrefix = ''1.3.6.1.4.1.'' @ decimal (unat (PEN cfg))
        in (Some \<lparr>config = cfg, server = None, oidPrefix = oidPrefix,
                   handlers = DAList.empty, staticVals = DAList.empty,
                   mu = unlocked\<rparr>,
            None))"

definition GetPrefix :: "'w Agent \<Rightarrow> string" where
  "GetPrefix a = oidPrefix a"

subsection \<open>Binding the registry to the transport\<close>

text \<open>
  The two closures that \<open>registerHandlers\<close> stores in \<open>OnGet\<close>. They capture \<open>oidCopy\<close>
  (used for logging only) and \<open>handlerCopy\<close>, respectively \<open>valueCopy\<close>.
\<close>

definition dynamicOnGet :: "'w ValueHandler \<Rightarrow> 'w ValueHandler" where
  "dynamicOnGet handlerCopy w =
     (case handlerCopy w of
        ((val, Some err), w') \<Rightarrow> ((INil, Some err), w')
      | ((val, None), w') \<Rightarrow> ((val, None), w'))"

definition staticOnGet :: "iface \<Rightarrow> 'w ValueHandler" where
  "staticOnGet valueCopy w = ((valueCopy, None), w)"

text \<open>The slice that the two \<open>range\<close> loops of \<open>registerHandlers\<close> append to.\<close>

definition pduItems :: "'w Agent \<Rightarrow> 'w PDUValueControlItem list" where
  "pduItems a =
     map (\<lambda>(oid, handler). \<lparr>OID = oid, Type = OctetString, OnGet = dynamicOnGet handler\<rparr>)
         (DAList.impl_of (handlers a))
     @ map (\<lambda>(oid, val). \<lparr>OID = oid, Type = OctetString, OnGet = staticOnGet val\<rparr>)
         (DAList.impl_of (staticVals a))"

definition registerHandlers :: "'w Agent \<Rightarrow> ('w Agent, unit) run" where
  "registerHandlers a =
     (case RLock (mu a) of
        None \<Rightarrow> Blocks a
      | Some m \<Rightarrow>
          let a = a\<lparr>mu := m\<rparr>;
              a = (case server a of
                     None \<Rightarrow> a
                   | Some srv \<Rightarrow>
                       (case SubAgents srv of
                          [] \<Rightarrow> a
                        | subAgent # rest \<Rightarrow>
                            a\<lparr>server :=
                                Some (srv\<lparr>SubAgents := subAgent\<lparr>OIDs := pduItems a\<rparr> # rest\<rparr>)\<rparr>))
          in Returns (a\<lparr>mu := RUnlock (mu a)\<rparr>) ())"

text \<open>
  \<open>Start\<close>. The argument \<open>listen\<close> is what \<open>ListenUDP\<close> returns, the one thing here
  that the network decides.
\<close>

definition Start :: "error option \<Rightarrow> 'w Agent \<Rightarrow> ('w Agent, error option) run" where
  "Start listen a =
     (let master = \<lparr>SubAgents = [\<lparr>CommunityIDs = [Community (config a)], OIDs = []\<rparr>]\<rparr>;
          a = a\<lparr>server := Some master\<rparr>
      in case registerHandlers a of
           Blocks b \<Rightarrow> Blocks b
         | Returns b u \<Rightarrow>
             (case listen of
                Some (Errorf msg) \<Rightarrow>
                  Returns b (Some (Errorf (''failed to start SNMP server: '' @ msg)))
              | None \<Rightarrow> Returns b None))"

subsection \<open>Registration\<close>

definition RegisterAbsolute ::
    "string \<Rightarrow> Asn1BER \<Rightarrow> 'w ValueHandler \<Rightarrow> 'w Agent \<Rightarrow> ('w Agent, error option) run" where
  "RegisterAbsolute oid oidType handler a =
     (case Lock (mu a) of
        None \<Rightarrow> Blocks a
      | Some m \<Rightarrow>
          let a = a\<lparr>mu := m\<rparr>;
              a = a\<lparr>handlers := DAList.update oid handler (handlers a)\<rparr>
          in case server a of
               None \<Rightarrow> Returns (a\<lparr>mu := Unlock (mu a)\<rparr>) None
             | Some srv \<Rightarrow>
                 (case registerHandlers a of
                    Blocks b \<Rightarrow> Blocks b
                  | Returns b u \<Rightarrow> Returns (b\<lparr>mu := Unlock (mu b)\<rparr>) None))"

definition Register ::
    "string \<Rightarrow> Asn1BER \<Rightarrow> 'w ValueHandler \<Rightarrow> 'w Agent \<Rightarrow> ('w Agent, error option) run" where
  "Register relativeOID oidType handler a =
     RegisterAbsolute (oidPrefix a @ ''.'' @ relativeOID) oidType handler a"

definition RegisterStaticAbsolute ::
    "string \<Rightarrow> Asn1BER \<Rightarrow> iface \<Rightarrow> 'w Agent \<Rightarrow> ('w Agent, error option) run" where
  "RegisterStaticAbsolute oid oidType val a =
     (case Lock (mu a) of
        None \<Rightarrow> Blocks a
      | Some m \<Rightarrow>
          let a = a\<lparr>mu := m\<rparr>;
              a = a\<lparr>staticVals := DAList.update oid val (staticVals a)\<rparr>
          in case server a of
               None \<Rightarrow> Returns (a\<lparr>mu := Unlock (mu a)\<rparr>) None
             | Some srv \<Rightarrow>
                 (case registerHandlers a of
                    Blocks b \<Rightarrow> Blocks b
                  | Returns b u \<Rightarrow> Returns (b\<lparr>mu := Unlock (mu b)\<rparr>) None))"

definition RegisterStatic ::
    "string \<Rightarrow> Asn1BER \<Rightarrow> iface \<Rightarrow> 'w Agent \<Rightarrow> ('w Agent, error option) run" where
  "RegisterStatic relativeOID oidType val a =
     RegisterStaticAbsolute (oidPrefix a @ ''.'' @ relativeOID) oidType val a"

definition UnregisterAbsolute :: "string \<Rightarrow> 'w Agent \<Rightarrow> ('w Agent, error option) run" where
  "UnregisterAbsolute oid a =
     (case Lock (mu a) of
        None \<Rightarrow> Blocks a
      | Some m \<Rightarrow>
          let a = a\<lparr>mu := m\<rparr>;
              deletedHandler = (DAList.lookup (handlers a) oid \<noteq> None);
              a = (if deletedHandler then a\<lparr>handlers := DAList.delete oid (handlers a)\<rparr> else a);
              deletedStatic = (DAList.lookup (staticVals a) oid \<noteq> None);
              a = (if deletedStatic then a\<lparr>staticVals := DAList.delete oid (staticVals a)\<rparr>
                   else a)
          in if \<not> deletedHandler \<and> \<not> deletedStatic then
               Returns (a\<lparr>mu := Unlock (mu a)\<rparr>) (Some (Errorf (''OID not found: '' @ oid)))
             else
               (case server a of
                  None \<Rightarrow> Returns (a\<lparr>mu := Unlock (mu a)\<rparr>) None
                | Some srv \<Rightarrow>
                    (case registerHandlers a of
                       Blocks b \<Rightarrow> Blocks b
                     | Returns b u \<Rightarrow> Returns (b\<lparr>mu := Unlock (mu b)\<rparr>) None)))"

definition Unregister :: "string \<Rightarrow> 'w Agent \<Rightarrow> ('w Agent, error option) run" where
  "Unregister relativeOID a = UnregisterAbsolute (oidPrefix a @ ''.'' @ relativeOID) a"

text \<open>
  \<open>ListOIDs\<close>: the result map is filled from \<open>handlers\<close> first and from \<open>staticVals\<close>
  second, so the second loop overwrites the tag of an OID that both maps hold.
\<close>

definition ListOIDs :: "'w Agent \<Rightarrow> ('w Agent, (string, string) alist) run" where
  "ListOIDs a =
     (case RLock (mu a) of
        None \<Rightarrow> Blocks a
      | Some m \<Rightarrow>
          let a = a\<lparr>mu := m\<rparr>;
              result = DAList.empty;
              result = foldl (\<lambda>r (oid, h). DAList.update oid ''dynamic'' r) result
                         (DAList.impl_of (handlers a));
              result = foldl (\<lambda>r (oid, v). DAList.update oid ''static'' r) result
                         (DAList.impl_of (staticVals a))
          in Returns (a\<lparr>mu := RUnlock (mu a)\<rparr>) result)"

subsection \<open>What an observer of the agent reads\<close>

text \<open>
  \<open>boundOIDs\<close> is \<open>server.SubAgents[0].OIDs\<close>, the items the transport serves (none
  before \<open>Start\<close>). \<open>entryCount\<close> counts the entries that the two maps hold for an OID,
  and \<open>listedTags\<close> collects the tags that \<open>ListOIDs\<close> reports for it.
\<close>

definition boundOIDs :: "'w Agent \<Rightarrow> 'w PDUValueControlItem list" where
  "boundOIDs a =
     (case server a of
        None \<Rightarrow> []
      | Some srv \<Rightarrow> (case SubAgents srv of [] \<Rightarrow> [] | subAgent # rest \<Rightarrow> OIDs subAgent))"

definition entryCount :: "'w Agent \<Rightarrow> string \<Rightarrow> nat" where
  "entryCount a oid =
     length (filter (\<lambda>e. fst e = oid) (DAList.impl_of (handlers a)))
     + length (filter (\<lambda>e. fst e = oid) (DAList.impl_of (staticVals a)))"

definition listedTags :: "'w Agent \<Rightarrow> string \<Rightarrow> string list" where
  "listedTags a oid =
     (case ListOIDs a of
        Returns s result \<Rightarrow> map snd (filter (\<lambda>e. fst e = oid) (DAList.impl_of result))
      | Blocks s \<Rightarrow> [])"

text \<open>Reading a decimal numeral back, to say what \<open>decimal\<close> renders.\<close>

definition digitVal :: "char \<Rightarrow> nat" where
  "digitVal c = of_char c - 48"

definition parseDecimal :: "string \<Rightarrow> nat" where
  "parseDecimal s = foldl (\<lambda>n c. 10 * n + digitVal c) 0 s"

subsection \<open>The example program\<close>

text \<open>
  The objects of \<open>examples/exmaple.go\<close>: its configuration (PEN 12345, debug level),
  the agent that \<open>NewAgent\<close> builds from it, and its counter
  (\<open>counter++; return uint(counter), nil\<close>), whose state is the counter itself.
\<close>

definition exampleConfig :: Config where
  "exampleConfig =
     \<lparr>PEN = 12345, ListenAddr = ''0.0.0.0:1161'', Community = ''public'', LogLevel = - 4\<rparr>"

definition exampleAgent :: "nat Agent" where
  "exampleAgent = the (fst (NewAgent exampleConfig))"

definition counterHandler :: "nat ValueHandler" where
  "counterHandler counter = ((IUint (Suc counter), None), Suc counter)"

definition demoOID :: string where
  "demoOID = ''1.3.6.1.4.1.12345.1.1.0''"

definition counterOID :: string where
  "counterOID = ''1.3.6.1.4.1.12345.3.1.0''"

text \<open>
  Three agents built from it: one OID registered as a static value and then as a handler;
  the counter registered under \<open>3.1.0\<close> and the agent started; the first one started.
\<close>

definition staticThenDynamic :: "nat Agent" where
  "staticThenDynamic =
     final (RegisterAbsolute demoOID Integer counterHandler
       (final (RegisterStaticAbsolute demoOID OctetString (IString ''demo'') exampleAgent)))"

definition startedAgent :: "nat Agent" where
  "startedAgent = final (Start None (final (Register ''3.1.0'' Counter32 counterHandler exampleAgent)))"

definition bothStarted :: "nat Agent" where
  "bothStarted = final (Start None staticThenDynamic)"

text \<open>
  A handler that reports how many readers hold the agent's mutex at the moment it runs.
  Its state pairs the mutex with a count of its own calls.
\<close>

definition readersProbe :: "(RWMutex \<times> nat) ValueHandler" where
  "readersProbe w = ((IUint (readers (fst w)), None), (fst w, Suc (snd w)))"

definition probeStarted :: "(RWMutex \<times> nat) Agent" where
  "probeStarted =
     final (Start None (final (RegisterAbsolute counterOID Gauge32 readersProbe
       (the (fst (NewAgent exampleConfig))))))"

section \<open>Lemmas about the operations\<close>

text \<open>
  A statement about a call starts from a free mutex (\<open>mu a = unlocked\<close>): the state in
  which the call gets the lock and its critical section begins.
\<close>

subsection \<open>The mutex\<close>

lemma unlocked_sel [simp]: "writer unlocked = False" "readers unlocked = 0"
  by (simp_all add: unlocked_def)

lemma Lock_unlocked: "Lock unlocked = Some \<lparr>writer = True, readers = 0\<rparr>"
  by (simp add: Lock_def unlocked_def)

lemma RLock_unlocked: "RLock unlocked = Some \<lparr>writer = False, readers = Suc 0\<rparr>"
  by (simp add: RLock_def unlocked_def)

lemma RLock_writer: "writer m \<Longrightarrow> RLock m = None"
  by (simp add: RLock_def)

lemma RUnlock_after_RLock: "RUnlock \<lparr>writer = False, readers = Suc 0\<rparr> = unlocked"
  by (simp add: RUnlock_def unlocked_def)

lemma Unlock_after_Lock: "Unlock \<lparr>writer = True, readers = 0\<rparr> = unlocked"
  by (simp add: Unlock_def unlocked_def)

subsection \<open>The maps\<close>

lemma lookup_None_iff: "DAList.lookup al k = None \<longleftrightarrow> k \<notin> fst ` set (DAList.impl_of al)"
  by (simp add: lookup.rep_eq map_of_eq_None_iff)

lemma lookup_Some_iff: "DAList.lookup al k = Some v \<longleftrightarrow> (k, v) \<in> set (DAList.impl_of al)"
  by (simp add: lookup.rep_eq)

lemma delete_absent: "DAList.lookup al k = None \<Longrightarrow> DAList.delete k al = al"
  by (simp add: alist_eq_iff delete.rep_eq lookup_None_iff)

lemma count_key:
  "distinct (map fst xs) \<Longrightarrow> length (filter (\<lambda>e. fst e = k) xs) = (if k \<in> fst ` set xs then 1 else 0)"
  by (induction xs) (auto simp: image_iff)

lemma entries_at:
  "length (filter (\<lambda>e. fst e = k) (DAList.impl_of al)) = (if DAList.lookup al k = None then 0 else 1)"
  using count_key [of "DAList.impl_of al" k] by (simp add: lookup_None_iff)

lemma entries_of_key:
  "distinct (map fst xs) \<Longrightarrow>
   map snd (filter (\<lambda>e. fst e = k) xs) = (case map_of xs k of None \<Rightarrow> [] | Some v \<Rightarrow> [v])"
proof (induction xs)
  case Nil
  then show ?case by simp
next
  case (Cons x xs)
  then show ?case
    by (cases x) (auto simp: map_of_eq_None_iff image_iff split: option.splits)
qed

lemma entryCount_eq:
  "entryCount a oid
     = (if DAList.lookup (handlers a) oid = None then 0 else 1)
       + (if DAList.lookup (staticVals a) oid = None then 0 else 1)"
  by (simp add: entryCount_def entries_at)

subsection \<open>Decimal rendering\<close>

lemma decimal_12345: "decimal 12345 = ''12345''"
  by (simp add: decimal.simps digit_def)

lemma digitVal_digit: "d < 10 \<Longrightarrow> digitVal (digit d) = d"
proof -
  assume "d < 10"
  then have "d \<in> {0, 1, 2, 3, 4, 5, 6, 7, 8, 9}" by auto
  then show ?thesis by (auto simp: digit_def digitVal_def)
qed

lemma parseDecimal_decimal: "parseDecimal (decimal n) = n"
proof (induction n rule: decimal.induct)
  case (1 n)
  show ?case
  proof (cases "n < 10")
    case True
    then show ?thesis by (simp add: decimal.simps [of n] parseDecimal_def digitVal_digit)
  next
    case False
    with 1 have "parseDecimal (decimal (n div 10)) = n div 10" by simp
    with False show ?thesis
      by (simp add: decimal.simps [of n] parseDecimal_def digitVal_digit)
  qed
qed

subsection \<open>Binding and start\<close>

lemma pduItems_cong [simp]:
  "pduItems (a\<lparr>mu := m\<rparr>) = pduItems a" "pduItems (a\<lparr>server := s\<rparr>) = pduItems a"
  by (simp_all add: pduItems_def)

lemma in_pduItems_dynamic:
  "(oid, h) \<in> set (DAList.impl_of (handlers a))
   \<Longrightarrow> \<lparr>OID = oid, Type = OctetString, OnGet = dynamicOnGet h\<rparr> \<in> set (pduItems a)"
  by (force simp: pduItems_def)

lemma in_pduItems_static:
  "(oid, v) \<in> set (DAList.impl_of (staticVals a))
   \<Longrightarrow> \<lparr>OID = oid, Type = OctetString, OnGet = staticOnGet v\<rparr> \<in> set (pduItems a)"
  by (force simp: pduItems_def)

lemma pduItems_Type: "i \<in> set (pduItems a) \<Longrightarrow> Type i = OctetString"
  by (auto simp: pduItems_def)

lemma static_callback:
  assumes "DAList.lookup (staticVals a) oid = Some v"
  shows "\<exists>i \<in> set (pduItems a). OID i = oid \<and> (\<forall>w. OnGet i w = ((v, None), w))"
proof (rule bexI)
  show "\<lparr>OID = oid, Type = OctetString, OnGet = staticOnGet v\<rparr> \<in> set (pduItems a)"
    using assms by (simp add: lookup_Some_iff in_pduItems_static)
  show "OID \<lparr>OID = oid, Type = OctetString, OnGet = staticOnGet v\<rparr> = oid
        \<and> (\<forall>w. OnGet \<lparr>OID = oid, Type = OctetString, OnGet = staticOnGet v\<rparr> w = ((v, None), w))"
    by (simp add: staticOnGet_def)
qed

lemma dynamic_callback:
  assumes "DAList.lookup (handlers a) oid = Some h"
  shows "\<exists>i \<in> set (pduItems a). OID i = oid
           \<and> (\<forall>w. OnGet i w
                  = (case h w of
                       ((val, Some err), w') \<Rightarrow> ((INil, Some err), w')
                     | ((val, None), w') \<Rightarrow> ((val, None), w')))"
proof (rule bexI)
  show "\<lparr>OID = oid, Type = OctetString, OnGet = dynamicOnGet h\<rparr> \<in> set (pduItems a)"
    using assms by (simp add: lookup_Some_iff in_pduItems_dynamic)
  show "OID \<lparr>OID = oid, Type = OctetString, OnGet = dynamicOnGet h\<rparr> = oid
        \<and> (\<forall>w. OnGet \<lparr>OID = oid, Type = OctetString, OnGet = dynamicOnGet h\<rparr> w
               = (case h w of
                    ((val, Some err), w') \<Rightarrow> ((INil, Some err), w')
                  | ((val, None), w') \<Rightarrow> ((val, None), w')))"
    by (simp add: dynamicOnGet_def)
qed

lemma pduItems_for_oid:
  assumes "i \<in> set (pduItems a)" and "OID i = oid"
  shows "(\<exists>h. DAList.lookup (handlers a) oid = Some h \<and> OnGet i = dynamicOnGet h)
         \<or> (\<exists>v. DAList.lookup (staticVals a) oid = Some v \<and> OnGet i = staticOnGet v)"
  using assms by (auto simp: pduItems_def lookup_Some_iff)

lemma registerHandlers_writer: "writer (mu a) \<Longrightarrow> registerHandlers a = Blocks a"
  by (simp add: registerHandlers_def RLock_writer)

lemma registerHandlers_unlocked:
  assumes "mu a = unlocked" and "server a = Some srv" and "SubAgents srv = subAgent # rest"
  shows "registerHandlers a =
           Returns (a\<lparr>server := Some (srv\<lparr>SubAgents := subAgent\<lparr>OIDs := pduItems a\<rparr> # rest\<rparr>)\<rparr>) ()"
proof -
  have same: "a\<lparr>mu := unlocked\<rparr> = a" using assms by simp
  show ?thesis using assms
    by (simp add: registerHandlers_def RLock_unlocked Let_def RUnlock_after_RLock same)
qed

lemma registerHandlers_frame:
  "handlers (final (registerHandlers a)) = handlers a
   \<and> staticVals (final (registerHandlers a)) = staticVals a
   \<and> oidPrefix (final (registerHandlers a)) = oidPrefix a
   \<and> config (final (registerHandlers a)) = config a"
  by (simp add: registerHandlers_def Let_def split: option.splits list.splits)

lemma boundOIDs_registerHandlers:
  assumes "mu a = unlocked" and "server a = Some srv" and "SubAgents srv = subAgent # rest"
  shows "registerHandlers a = Returns (final (registerHandlers a)) ()"
    and "mu (final (registerHandlers a)) = unlocked"
    and "boundOIDs (final (registerHandlers a)) = pduItems a"
  using assms by (simp_all add: registerHandlers_unlocked [OF assms] boundOIDs_def)

lemma Start_unlocked:
  assumes "mu a = unlocked"
  shows "Start listen a =
           Returns (a\<lparr>server := Some \<lparr>SubAgents = [\<lparr>CommunityIDs = [Community (config a)],
                                                        OIDs = pduItems a\<rparr>]\<rparr>\<rparr>)
                   (case listen of
                      None \<Rightarrow> None
                    | Some (Errorf msg) \<Rightarrow> Some (Errorf (''failed to start SNMP server: '' @ msg)))"
proof -
  have same: "a\<lparr>mu := unlocked\<rparr> = a" using assms by simp
  show ?thesis using assms
    by (simp add: Start_def registerHandlers_def RLock_unlocked Let_def RUnlock_after_RLock
        same split: option.splits error.splits)
qed

lemma Start_binds:
  assumes "mu a = unlocked"
  shows "returned (Start listen a) \<noteq> None \<and> boundOIDs (final (Start listen a)) = pduItems a"
  by (simp add: Start_unlocked [OF assms] boundOIDs_def)

lemma Start_prefix: "oidPrefix (final (Start listen a)) = oidPrefix a"
  using registerHandlers_frame [of "a\<lparr>server := Some \<lparr>SubAgents = [\<lparr>CommunityIDs = [Community (config a)], OIDs = []\<rparr>]\<rparr>\<rparr>"]
  by (auto simp add: Start_def Let_def split: run.splits option.splits error.splits)

subsection \<open>Registration\<close>

text \<open>
  Before \<open>Start\<close> a registration stores its entry, releases the mutex and returns
  \<open>nil\<close>. After \<open>Start\<close> it calls \<open>registerHandlers\<close> while it holds the write lock; the
  \<open>RLock\<close> there waits for that lock, which only the waiting call itself would release.
\<close>

lemma RegisterAbsolute_unstarted:
  assumes "mu a = unlocked" and "server a = None"
  shows "RegisterAbsolute oid t h a
           = Returns (a\<lparr>handlers := DAList.update oid h (handlers a)\<rparr>) None"
proof -
  have same: "a\<lparr>mu := unlocked\<rparr> = a" using assms by simp
  show ?thesis using assms
    by (simp add: RegisterAbsolute_def Lock_unlocked Let_def Unlock_after_Lock)
qed

lemma RegisterStaticAbsolute_unstarted:
  assumes "mu a = unlocked" and "server a = None"
  shows "RegisterStaticAbsolute oid t v a
           = Returns (a\<lparr>staticVals := DAList.update oid v (staticVals a)\<rparr>) None"
  using assms
  by (simp add: RegisterStaticAbsolute_def Lock_unlocked Let_def Unlock_after_Lock)

lemma RegisterAbsolute_started:
  assumes "mu a = unlocked" and "server a = Some srv"
  shows "RegisterAbsolute oid t h a
           = Blocks (a\<lparr>mu := \<lparr>writer = True, readers = 0\<rparr>,
                       handlers := DAList.update oid h (handlers a)\<rparr>)"
  using assms
  by (simp add: RegisterAbsolute_def Lock_unlocked Let_def registerHandlers_writer)

lemma RegisterStaticAbsolute_started:
  assumes "mu a = unlocked" and "server a = Some srv"
  shows "RegisterStaticAbsolute oid t v a
           = Blocks (a\<lparr>mu := \<lparr>writer = True, readers = 0\<rparr>,
                       staticVals := DAList.update oid v (staticVals a)\<rparr>)"
  using assms
  by (simp add: RegisterStaticAbsolute_def Lock_unlocked Let_def registerHandlers_writer)

lemma RegisterAbsolute_frame:
  "staticVals (final (RegisterAbsolute oid t h a)) = staticVals a
   \<and> oidPrefix (final (RegisterAbsolute oid t h a)) = oidPrefix a
   \<and> handlers (final (RegisterAbsolute oid t h a))
       = (if Lock (mu a) = None then handlers a else DAList.update oid h (handlers a))"
  by (auto simp add: RegisterAbsolute_def Let_def registerHandlers_writer Lock_def
      split: option.splits run.splits if_splits)

lemma RegisterStaticAbsolute_frame:
  "handlers (final (RegisterStaticAbsolute oid t v a)) = handlers a
   \<and> oidPrefix (final (RegisterStaticAbsolute oid t v a)) = oidPrefix a
   \<and> staticVals (final (RegisterStaticAbsolute oid t v a))
       = (if Lock (mu a) = None then staticVals a else DAList.update oid v (staticVals a))"
  by (auto simp add: RegisterStaticAbsolute_def Let_def registerHandlers_writer Lock_def
      split: option.splits run.splits if_splits)

lemma RegisterAbsolute_entry:
  "mu a = unlocked \<Longrightarrow>
   DAList.lookup (handlers (final (RegisterAbsolute oid t h a))) oid = Some h"
  using RegisterAbsolute_frame [of oid t h a] by (simp add: Lock_unlocked)

lemma RegisterStaticAbsolute_entry:
  "mu a = unlocked \<Longrightarrow>
   DAList.lookup (staticVals (final (RegisterStaticAbsolute oid t v a))) oid = Some v"
  using RegisterStaticAbsolute_frame [of oid t v a] by (simp add: Lock_unlocked)

lemma Register_entry:
  "mu b = unlocked \<Longrightarrow>
   DAList.lookup (handlers (final (Register r t h b))) (GetPrefix b @ ''.'' @ r) = Some h"
  by (simp add: Register_def GetPrefix_def RegisterAbsolute_entry)

lemma RegisterStatic_entry:
  "mu b = unlocked \<Longrightarrow>
   DAList.lookup (staticVals (final (RegisterStatic r t v b))) (GetPrefix b @ ''.'' @ r) = Some v"
  by (simp add: RegisterStatic_def GetPrefix_def RegisterStaticAbsolute_entry)

lemma only_static_callback:
  assumes "DAList.lookup (handlers a) oid = None" and "DAList.lookup (staticVals a) oid = Some v"
    and "i \<in> set (pduItems a)" and "OID i = oid"
  shows "OnGet i w = ((v, None), w)"
  using pduItems_for_oid [OF assms(3,4)] assms(1,2) by (auto simp: staticOnGet_def)

lemma only_dynamic_callback:
  assumes "DAList.lookup (staticVals a) oid = None" and "DAList.lookup (handlers a) oid = Some h"
    and "i \<in> set (pduItems a)" and "OID i = oid"
  shows "OnGet i w
           = (case h w of
                ((val, Some err), w') \<Rightarrow> ((INil, Some err), w')
              | ((val, None), w') \<Rightarrow> ((val, None), w'))"
  using pduItems_for_oid [OF assms(3,4)] assms(1,2) by (auto simp: dynamicOnGet_def)

subsection \<open>Unregistration\<close>

lemma UnregisterAbsolute_absent:
  assumes "mu a = unlocked"
    and "DAList.lookup (handlers a) oid = None" and "DAList.lookup (staticVals a) oid = None"
  shows "UnregisterAbsolute oid a = Returns a (Some (Errorf (''OID not found: '' @ oid)))"
proof -
  have same: "a\<lparr>mu := unlocked\<rparr> = a" using assms by simp
  show ?thesis using assms
    by (simp add: UnregisterAbsolute_def Lock_unlocked Let_def Unlock_after_Lock same)
qed

lemma UnregisterAbsolute_present:
  assumes "mu a = unlocked"
    and "DAList.lookup (handlers a) oid \<noteq> None \<or> DAList.lookup (staticVals a) oid \<noteq> None"
  shows "UnregisterAbsolute oid a =
           (case server a of
              None \<Rightarrow> Returns (a\<lparr>handlers := DAList.delete oid (handlers a),
                                  staticVals := DAList.delete oid (staticVals a)\<rparr>) None
            | Some srv \<Rightarrow> Blocks (a\<lparr>mu := \<lparr>writer = True, readers = 0\<rparr>,
                                     handlers := DAList.delete oid (handlers a),
                                     staticVals := DAList.delete oid (staticVals a)\<rparr>))"
  using assms
  by (auto simp add: UnregisterAbsolute_def Lock_unlocked Let_def Unlock_after_Lock
      registerHandlers_writer delete_absent split: option.splits)

lemma UnregisterAbsolute_prefix:
  "oidPrefix (final (UnregisterAbsolute oid a)) = oidPrefix a"
  by (auto simp add: UnregisterAbsolute_def Let_def registerHandlers_writer Lock_def
      split: option.splits run.splits if_splits)

lemma UnregisterAbsolute_error_iff:
  assumes "mu a = unlocked"
  shows "(\<exists>e. returned (UnregisterAbsolute oid a) = Some (Some e))
         \<longleftrightarrow> DAList.lookup (handlers a) oid = None \<and> DAList.lookup (staticVals a) oid = None"
proof (cases "DAList.lookup (handlers a) oid = None \<and> DAList.lookup (staticVals a) oid = None")
  case True
  then show ?thesis by (simp add: UnregisterAbsolute_absent [OF assms])
next
  case False
  then have "DAList.lookup (handlers a) oid \<noteq> None \<or> DAList.lookup (staticVals a) oid \<noteq> None"
    by simp
  from UnregisterAbsolute_present [OF assms this] False show ?thesis
    by (cases "server a") auto
qed

lemma registration_never_errs:
  "returned (RegisterAbsolute oid t h a) \<noteq> Some (Some e)"
  "returned (RegisterStaticAbsolute oid t v a) \<noteq> Some (Some e)"
  by (auto simp add: RegisterAbsolute_def RegisterStaticAbsolute_def Let_def
      split: option.splits run.splits)

lemma started_never_returns:
  assumes "server a = Some srv"
  shows "returned (RegisterAbsolute oid t h a) = None"
    and "returned (RegisterStaticAbsolute oid t v a) = None"
    and "DAList.lookup (handlers a) oid \<noteq> None \<or> DAList.lookup (staticVals a) oid \<noteq> None
         \<Longrightarrow> returned (UnregisterAbsolute oid a) = None"
  using assms
  by (auto simp add: RegisterAbsolute_def RegisterStaticAbsolute_def UnregisterAbsolute_def
      Let_def Lock_def registerHandlers_writer split: option.splits if_splits)

subsection \<open>Listing, and the prefix\<close>

lemma lookup_tag_loop:
  "DAList.lookup (foldl (\<lambda>r (oid, x). DAList.update oid tag r) r0 xs) k
     = (if k \<in> fst ` set xs then Some tag else DAList.lookup r0 k)"
  by (induction xs arbitrary: r0) (auto simp: DAList.lookup_update)

lemma ListOIDs_unlocked:
  assumes "mu a = unlocked"
  shows "\<exists>result. ListOIDs a = Returns a result
           \<and> (\<forall>k. DAList.lookup result k
                 = (if DAList.lookup (staticVals a) k \<noteq> None then Some ''static''
                    else if DAList.lookup (handlers a) k \<noteq> None then Some ''dynamic''
                    else None))"
proof -
  let ?dyn = "foldl (\<lambda>r (oid, h). DAList.update oid ''dynamic'' r) DAList.empty
                (DAList.impl_of (handlers a))"
  let ?res = "foldl (\<lambda>r (oid, v). DAList.update oid ''static'' r) ?dyn
                (DAList.impl_of (staticVals a))"
  have same: "a\<lparr>mu := unlocked\<rparr> = a" using assms by simp
  have "RUnlock \<lparr>writer = False, readers = Suc 0\<rparr> = unlocked"
    by (simp add: RUnlock_def unlocked_def)
  then have run: "ListOIDs a = Returns a ?res"
    using assms same by (simp add: ListOIDs_def RLock_unlocked Let_def)
  have "DAList.lookup ?res k
          = (if DAList.lookup (staticVals a) k \<noteq> None then Some ''static''
             else if DAList.lookup (handlers a) k \<noteq> None then Some ''dynamic''
             else None)" for k
    by (simp add: lookup_tag_loop lookup_None_iff)
  with run show ?thesis by blast
qed

lemma ListOIDs_prefix: "oidPrefix (final (ListOIDs a)) = oidPrefix a"
  by (simp add: ListOIDs_def Let_def split: option.splits)

lemma listedTags_unlocked:
  assumes "mu a = unlocked"
  shows "listedTags a oid
           = (if DAList.lookup (staticVals a) oid \<noteq> None then [''static'']
              else if DAList.lookup (handlers a) oid \<noteq> None then [''dynamic'']
              else [])"
proof -
  from ListOIDs_unlocked [OF assms] obtain result where
    r: "ListOIDs a = Returns a result"
    and l: "DAList.lookup result oid
              = (if DAList.lookup (staticVals a) oid \<noteq> None then Some ''static''
                 else if DAList.lookup (handlers a) oid \<noteq> None then Some ''dynamic''
                 else None)"
    by blast
  have "map snd (filter (\<lambda>e. fst e = oid) (DAList.impl_of result))
          = (case DAList.lookup result oid of None \<Rightarrow> [] | Some v \<Rightarrow> [v])"
    by (simp add: entries_of_key lookup.rep_eq)
  with r l show ?thesis by (simp add: listedTags_def)
qed

lemma prefix_fixed:
  "GetPrefix (final (RegisterAbsolute oid t h b)) = GetPrefix b"
  "GetPrefix (final (RegisterStaticAbsolute oid t v b)) = GetPrefix b"
  "GetPrefix (final (UnregisterAbsolute oid b)) = GetPrefix b"
  "GetPrefix (final (Register r t h b)) = GetPrefix b"
  "GetPrefix (final (RegisterStatic r t v b)) = GetPrefix b"
  "GetPrefix (final (Unregister r b)) = GetPrefix b"
  "GetPrefix (final (Start listen b)) = GetPrefix b"
  "GetPrefix (final (ListOIDs b)) = GetPrefix b"
  "GetPrefix (final (registerHandlers b)) = GetPrefix b"
  by (simp_all add: GetPrefix_def Register_def RegisterStatic_def Unregister_def
      RegisterAbsolute_frame RegisterStaticAbsolute_frame UnregisterAbsolute_prefix Start_prefix
      ListOIDs_prefix registerHandlers_frame)

subsection \<open>Two registrations of one OID\<close>

lemma static_then_static:
  assumes "mu a = unlocked" and "server a = None"
  shows "\<exists>a1 a2. RegisterStaticAbsolute oid t1 v1 a = Returns a1 None
           \<and> RegisterStaticAbsolute oid t2 v2 a1 = Returns a2 None
           \<and> DAList.lookup (staticVals a2) oid = Some v2
           \<and> handlers a2 = handlers a
           \<and> entryCount a2 oid = (if DAList.lookup (handlers a) oid = None then 1 else 2)
           \<and> listedTags a2 oid = [''static'']"
proof -
  let ?a1 = "a\<lparr>staticVals := DAList.update oid v1 (staticVals a)\<rparr>"
  let ?a2 = "?a1\<lparr>staticVals := DAList.update oid v2 (staticVals ?a1)\<rparr>"
  have 1: "RegisterStaticAbsolute oid t1 v1 a = Returns ?a1 None"
    by (rule RegisterStaticAbsolute_unstarted [OF assms])
  have m1: "mu ?a1 = unlocked" and s1: "server ?a1 = None" using assms by simp_all
  have 2: "RegisterStaticAbsolute oid t2 v2 ?a1 = Returns ?a2 None"
    by (rule RegisterStaticAbsolute_unstarted [OF m1 s1])
  have m2: "mu ?a2 = unlocked" using assms by simp
  have "DAList.lookup (staticVals ?a2) oid = Some v2" "handlers ?a2 = handlers a"
    "entryCount ?a2 oid = (if DAList.lookup (handlers a) oid = None then 1 else 2)"
    "listedTags ?a2 oid = [''static'']"
    using assms by (simp_all add: entryCount_eq listedTags_unlocked)
  with 1 2 show ?thesis by blast
qed

lemma dynamic_then_dynamic:
  assumes "mu a = unlocked" and "server a = None"
  shows "\<exists>a1 a2. RegisterAbsolute oid t1 h1 a = Returns a1 None
           \<and> RegisterAbsolute oid t2 h2 a1 = Returns a2 None
           \<and> DAList.lookup (handlers a2) oid = Some h2
           \<and> staticVals a2 = staticVals a
           \<and> entryCount a2 oid = (if DAList.lookup (staticVals a) oid = None then 1 else 2)
           \<and> listedTags a2 oid
               = (if DAList.lookup (staticVals a) oid = None then [''dynamic''] else [''static''])"
proof -
  let ?a1 = "a\<lparr>handlers := DAList.update oid h1 (handlers a)\<rparr>"
  let ?a2 = "?a1\<lparr>handlers := DAList.update oid h2 (handlers ?a1)\<rparr>"
  have 1: "RegisterAbsolute oid t1 h1 a = Returns ?a1 None"
    by (rule RegisterAbsolute_unstarted [OF assms])
  have m1: "mu ?a1 = unlocked" and s1: "server ?a1 = None" using assms by simp_all
  have 2: "RegisterAbsolute oid t2 h2 ?a1 = Returns ?a2 None"
    by (rule RegisterAbsolute_unstarted [OF m1 s1])
  have m2: "mu ?a2 = unlocked" using assms by simp
  have "DAList.lookup (handlers ?a2) oid = Some h2" "staticVals ?a2 = staticVals a"
    "entryCount ?a2 oid = (if DAList.lookup (staticVals a) oid = None then 1 else 2)"
    "listedTags ?a2 oid
       = (if DAList.lookup (staticVals a) oid = None then [''dynamic''] else [''static''])"
    using assms by (simp_all add: entryCount_eq listedTags_unlocked)
  with 1 2 show ?thesis by blast
qed

lemma static_then_dynamic:
  assumes "mu a = unlocked" and "server a = None"
  shows "\<exists>a1 a2. RegisterStaticAbsolute oid t1 v1 a = Returns a1 None
           \<and> RegisterAbsolute oid t2 h2 a1 = Returns a2 None
           \<and> DAList.lookup (staticVals a2) oid = Some v1
           \<and> DAList.lookup (handlers a2) oid = Some h2
           \<and> entryCount a2 oid = 2
           \<and> listedTags a2 oid = [''static'']"
proof -
  let ?a1 = "a\<lparr>staticVals := DAList.update oid v1 (staticVals a)\<rparr>"
  let ?a2 = "?a1\<lparr>handlers := DAList.update oid h2 (handlers ?a1)\<rparr>"
  have 1: "RegisterStaticAbsolute oid t1 v1 a = Returns ?a1 None"
    by (rule RegisterStaticAbsolute_unstarted [OF assms])
  have m1: "mu ?a1 = unlocked" and s1: "server ?a1 = None" using assms by simp_all
  have 2: "RegisterAbsolute oid t2 h2 ?a1 = Returns ?a2 None"
    by (rule RegisterAbsolute_unstarted [OF m1 s1])
  have m2: "mu ?a2 = unlocked" using assms by simp
  have "DAList.lookup (staticVals ?a2) oid = Some v1" "DAList.lookup (handlers ?a2) oid = Some h2"
    "entryCount ?a2 oid = 2" "listedTags ?a2 oid = [''static'']"
    using assms by (simp_all add: entryCount_eq listedTags_unlocked)
  with 1 2 show ?thesis by blast
qed

lemma dynamic_then_static:
  assumes "mu a = unlocked" and "server a = None"
  shows "\<exists>a1 a2. RegisterAbsolute oid t1 h1 a = Returns a1 None
           \<and> RegisterStaticAbsolute oid t2 v2 a1 = Returns a2 None
           \<and> DAList.lookup (handlers a2) oid = Some h1
           \<and> DAList.lookup (staticVals a2) oid = Some v2
           \<and> entryCount a2 oid = 2
           \<and> listedTags a2 oid = [''static'']"
proof -
  let ?a1 = "a\<lparr>handlers := DAList.update oid h1 (handlers a)\<rparr>"
  let ?a2 = "?a1\<lparr>staticVals := DAList.update oid v2 (staticVals ?a1)\<rparr>"
  have 1: "RegisterAbsolute oid t1 h1 a = Returns ?a1 None"
    by (rule RegisterAbsolute_unstarted [OF assms])
  have m1: "mu ?a1 = unlocked" and s1: "server ?a1 = None" using assms by simp_all
  have 2: "RegisterStaticAbsolute oid t2 v2 ?a1 = Returns ?a2 None"
    by (rule RegisterStaticAbsolute_unstarted [OF m1 s1])
  have m2: "mu ?a2 = unlocked" using assms by simp
  have "DAList.lookup (handlers ?a2) oid = Some h1" "DAList.lookup (staticVals ?a2) oid = Some v2"
    "entryCount ?a2 oid = 2" "listedTags ?a2 oid = [''static'']"
    using assms by (simp_all add: entryCount_eq listedTags_unlocked)
  with 1 2 show ?thesis by blast
qed

subsection \<open>The example agents, evaluated\<close>

lemma NewAgent_exampleConfig:
  "NewAgent exampleConfig =
     (Some \<lparr>config = exampleConfig, server = None, oidPrefix = ''1.3.6.1.4.1.12345'',
            handlers = DAList.empty, staticVals = DAList.empty, mu = unlocked\<rparr>, None)"
  by (simp add: NewAgent_def exampleConfig_def Let_def decimal_12345)

lemma exampleConfig_Community: "Community exampleConfig = ''public''"
  by (simp add: exampleConfig_def)

lemma exampleAgent_eq:
  "exampleAgent =
     \<lparr>config = exampleConfig, server = None, oidPrefix = ''1.3.6.1.4.1.12345'',
      handlers = DAList.empty, staticVals = DAList.empty, mu = unlocked\<rparr>"
  by (simp add: exampleAgent_def NewAgent_def exampleConfig_def Let_def decimal_12345)

lemma exampleAgent_sel [simp]:
  "mu exampleAgent = unlocked" "server exampleAgent = None"
  "oidPrefix exampleAgent = ''1.3.6.1.4.1.12345''"
  "handlers exampleAgent = DAList.empty" "staticVals exampleAgent = DAList.empty"
  "config exampleAgent = exampleConfig"
  by (simp_all add: exampleAgent_eq)

lemma staticThenDynamic_eq:
  "staticThenDynamic =
     exampleAgent\<lparr>staticVals := DAList.update demoOID (IString ''demo'') DAList.empty,
                  handlers := DAList.update demoOID counterHandler DAList.empty\<rparr>"
  by (simp add: staticThenDynamic_def RegisterStaticAbsolute_unstarted RegisterAbsolute_unstarted)

lemma startedAgent_eq:
  "startedAgent =
     exampleAgent\<lparr>handlers := DAList.update counterOID counterHandler DAList.empty,
                  server := Some \<lparr>SubAgents = [\<lparr>CommunityIDs = [''public''],
                      OIDs = [\<lparr>OID = counterOID, Type = OctetString,
                                OnGet = dynamicOnGet counterHandler\<rparr>]\<rparr>]\<rparr>\<rparr>"
  by (simp add: startedAgent_def Register_def RegisterAbsolute_unstarted Start_unlocked
      counterOID_def pduItems_def update.rep_eq empty.rep_eq exampleConfig_def)

lemma bothStarted_eq:
  "bothStarted =
     staticThenDynamic\<lparr>server := Some \<lparr>SubAgents = [\<lparr>CommunityIDs = [''public''],
        OIDs = [\<lparr>OID = demoOID, Type = OctetString, OnGet = dynamicOnGet counterHandler\<rparr>,
                \<lparr>OID = demoOID, Type = OctetString, OnGet = staticOnGet (IString ''demo'')\<rparr>]\<rparr>]\<rparr>\<rparr>"
  by (simp add: bothStarted_def staticThenDynamic_eq Start_unlocked
      pduItems_def update.rep_eq empty.rep_eq exampleConfig_def)

lemma probeStarted_eq:
  "probeStarted =
     \<lparr>config = exampleConfig,
      server = Some \<lparr>SubAgents = [\<lparr>CommunityIDs = [''public''],
                 OIDs = [\<lparr>OID = counterOID, Type = OctetString,
                           OnGet = dynamicOnGet readersProbe\<rparr>]\<rparr>]\<rparr>,
      oidPrefix = ''1.3.6.1.4.1.12345'',
      handlers = DAList.update counterOID readersProbe DAList.empty,
      staticVals = DAList.empty, mu = unlocked\<rparr>"
  by (simp add: probeStarted_def NewAgent_exampleConfig RegisterAbsolute_unstarted Start_unlocked
      pduItems_def update.rep_eq empty.rep_eq exampleConfig_Community)

lemma example_runs:
  "RegisterStaticAbsolute demoOID OctetString (IString ''demo'') exampleAgent
     = Returns (final (RegisterStaticAbsolute demoOID OctetString (IString ''demo'') exampleAgent))
         None"
  "RegisterAbsolute demoOID Integer counterHandler
       (final (RegisterStaticAbsolute demoOID OctetString (IString ''demo'') exampleAgent))
     = Returns staticThenDynamic None"
  "Register ''3.1.0'' Counter32 counterHandler exampleAgent
     = Returns (final (Register ''3.1.0'' Counter32 counterHandler exampleAgent)) None"
  "Start None (final (Register ''3.1.0'' Counter32 counterHandler exampleAgent))
     = Returns startedAgent None"
  "Start None staticThenDynamic = Returns bothStarted None"
  by (simp_all add: staticThenDynamic_def startedAgent_def bothStarted_def Register_def
      RegisterStaticAbsolute_unstarted RegisterAbsolute_unstarted Start_unlocked)

lemma probe_runs:
  "Start None (final (RegisterAbsolute counterOID Gauge32 readersProbe
      (the (fst (NewAgent exampleConfig))))) = Returns probeStarted None"
  by (simp add: probeStarted_def NewAgent_exampleConfig RegisterAbsolute_unstarted Start_unlocked)

subsection \<open>What is bound after a registration and a start\<close>

lemma pduItems_count: "length (filter (\<lambda>i. OID i = oid) (pduItems a)) = entryCount a oid"
  by (simp add: pduItems_def entryCount_def comp_def case_prod_beta)

lemma bound_after_static:
  assumes "mu a = unlocked" and "server a = None"
  shows "\<exists>a1 a2 r. RegisterStaticAbsolute oid t v a = Returns a1 None
           \<and> Start listen a1 = Returns a2 r
           \<and> (\<exists>i \<in> set (boundOIDs a2). OID i = oid \<and> (\<forall>w. OnGet i w = ((v, None), w)))
           \<and> length (filter (\<lambda>i. OID i = oid) (boundOIDs a2))
               = (if DAList.lookup (handlers a) oid = None then 1 else 2)
           \<and> (\<forall>i \<in> set (boundOIDs a2). OID i = oid \<longrightarrow>
                 (\<forall>w. OnGet i w = ((v, None), w))
                 \<or> (\<exists>h'. DAList.lookup (handlers a) oid = Some h' \<and> OnGet i = dynamicOnGet h'))"
proof -
  let ?a1 = "a\<lparr>staticVals := DAList.update oid v (staticVals a)\<rparr>"
  let ?a2 = "final (Start listen ?a1)"
  have 1: "RegisterStaticAbsolute oid t v a = Returns ?a1 None"
    by (rule RegisterStaticAbsolute_unstarted [OF assms])
  have m1: "mu ?a1 = unlocked" using assms by simp
  obtain r where 2: "Start listen ?a1 = Returns ?a2 r"
    by (simp add: Start_unlocked [OF m1])
  have b: "boundOIDs ?a2 = pduItems ?a1"
    using Start_binds [OF m1, of listen] by simp
  have l: "DAList.lookup (staticVals ?a1) oid = Some v" by simp
  have 3: "\<exists>i \<in> set (boundOIDs ?a2). OID i = oid \<and> (\<forall>w. OnGet i w = ((v, None), w))"
    unfolding b by (rule static_callback [OF l])
  have 4: "length (filter (\<lambda>i. OID i = oid) (boundOIDs ?a2))
             = (if DAList.lookup (handlers a) oid = None then 1 else 2)"
    unfolding b by (simp add: pduItems_count entryCount_eq)
  have 5: "\<forall>i \<in> set (boundOIDs ?a2). OID i = oid \<longrightarrow>
             (\<forall>w. OnGet i w = ((v, None), w))
             \<or> (\<exists>h'. DAList.lookup (handlers a) oid = Some h' \<and> OnGet i = dynamicOnGet h')"
  proof (intro ballI impI)
    fix i assume "i \<in> set (boundOIDs ?a2)" and "OID i = oid"
    then have "i \<in> set (pduItems ?a1)" and o: "OID i = oid" by (simp_all add: b)
    from pduItems_for_oid [OF this]
    show "(\<forall>w. OnGet i w = ((v, None), w))
          \<or> (\<exists>h'. DAList.lookup (handlers a) oid = Some h' \<and> OnGet i = dynamicOnGet h')"
      by (auto simp: staticOnGet_def)
  qed
  from 1 2 3 4 5 show ?thesis by blast
qed

lemma bound_after_dynamic:
  assumes "mu a = unlocked" and "server a = None"
  shows "\<exists>a1 a2 r. RegisterAbsolute oid t h a = Returns a1 None
           \<and> Start listen a1 = Returns a2 r
           \<and> (\<exists>i \<in> set (boundOIDs a2). OID i = oid
                \<and> (\<forall>w. OnGet i w
                       = (case h w of
                            ((val, Some err), w') \<Rightarrow> ((INil, Some err), w')
                          | ((val, None), w') \<Rightarrow> ((val, None), w'))))
           \<and> length (filter (\<lambda>i. OID i = oid) (boundOIDs a2))
               = (if DAList.lookup (staticVals a) oid = None then 1 else 2)
           \<and> (\<forall>i \<in> set (boundOIDs a2). OID i = oid \<longrightarrow>
                 (\<forall>w. OnGet i w
                       = (case h w of
                            ((val, Some err), w') \<Rightarrow> ((INil, Some err), w')
                          | ((val, None), w') \<Rightarrow> ((val, None), w')))
                 \<or> (\<exists>v'. DAList.lookup (staticVals a) oid = Some v' \<and> OnGet i = staticOnGet v'))"
proof -
  let ?a1 = "a\<lparr>handlers := DAList.update oid h (handlers a)\<rparr>"
  let ?a2 = "final (Start listen ?a1)"
  have 1: "RegisterAbsolute oid t h a = Returns ?a1 None"
    by (rule RegisterAbsolute_unstarted [OF assms])
  have m1: "mu ?a1 = unlocked" using assms by simp
  obtain r where 2: "Start listen ?a1 = Returns ?a2 r"
    by (simp add: Start_unlocked [OF m1])
  have b: "boundOIDs ?a2 = pduItems ?a1"
    using Start_binds [OF m1, of listen] by simp
  have l: "DAList.lookup (handlers ?a1) oid = Some h" by simp
  have 3: "\<exists>i \<in> set (boundOIDs ?a2). OID i = oid
             \<and> (\<forall>w. OnGet i w
                    = (case h w of
                         ((val, Some err), w') \<Rightarrow> ((INil, Some err), w')
                       | ((val, None), w') \<Rightarrow> ((val, None), w')))"
    unfolding b by (rule dynamic_callback [OF l])
  have 4: "length (filter (\<lambda>i. OID i = oid) (boundOIDs ?a2))
             = (if DAList.lookup (staticVals a) oid = None then 1 else 2)"
    unfolding b by (simp add: pduItems_count entryCount_eq)
  have 5: "\<forall>i \<in> set (boundOIDs ?a2). OID i = oid \<longrightarrow>
             (\<forall>w. OnGet i w
                   = (case h w of
                        ((val, Some err), w') \<Rightarrow> ((INil, Some err), w')
                      | ((val, None), w') \<Rightarrow> ((val, None), w')))
             \<or> (\<exists>v'. DAList.lookup (staticVals a) oid = Some v' \<and> OnGet i = staticOnGet v')"
  proof (intro ballI impI)
    fix i assume "i \<in> set (boundOIDs ?a2)" and "OID i = oid"
    then have "i \<in> set (pduItems ?a1)" and o: "OID i = oid" by (simp_all add: b)
    from pduItems_for_oid [OF this]
    show "(\<forall>w. OnGet i w
                 = (case h w of
                      ((val, Some err), w') \<Rightarrow> ((INil, Some err), w')
                    | ((val, None), w') \<Rightarrow> ((val, None), w')))
          \<or> (\<exists>v'. DAList.lookup (staticVals a) oid = Some v' \<and> OnGet i = staticOnGet v')"
      by (auto simp: dynamicOnGet_def)
  qed
  from 1 2 3 4 5 show ?thesis by blast
qed

section \<open>The claims\<close>

subsection \<open>C1: entries per OID\<close>

text \<open>
  C1 states that an absolute OID has at most one entry, static or dynamic, and that after
  any two registrations of one OID exactly one entry exists, the most recent one, with one
  tag in \<open>ListOIDs\<close>. On the example agent, \<open>RegisterStaticAbsolute\<close> and then
  \<open>RegisterAbsolute\<close> of the same OID leave two entries for it, the static value and the
  handler, and \<open>ListOIDs\<close> tags the OID "static" although the handler was registered
  last.
\<close>

theorem one_entry_per_OID_counterexample:
  "RegisterStaticAbsolute demoOID OctetString (IString ''demo'') exampleAgent
     = Returns (final (RegisterStaticAbsolute demoOID OctetString (IString ''demo'') exampleAgent))
         None
   \<and> RegisterAbsolute demoOID Integer counterHandler
         (final (RegisterStaticAbsolute demoOID OctetString (IString ''demo'') exampleAgent))
       = Returns staticThenDynamic None
   \<and> entryCount staticThenDynamic demoOID = 2
   \<and> DAList.lookup (staticVals staticThenDynamic) demoOID = Some (IString ''demo'')
   \<and> DAList.lookup (handlers staticThenDynamic) demoOID = Some counterHandler
   \<and> (case ListOIDs staticThenDynamic of
         Returns s result \<Rightarrow> DAList.lookup result demoOID = Some ''static''
       | Blocks s \<Rightarrow> False)"
proof -
  have "mu staticThenDynamic = unlocked" by (simp add: staticThenDynamic_eq)
  from ListOIDs_unlocked [OF this] obtain result where
    "ListOIDs staticThenDynamic = Returns staticThenDynamic result"
    "DAList.lookup result demoOID = Some ''static''"
    by (auto simp: staticThenDynamic_eq)
  moreover have "entryCount staticThenDynamic demoOID = 2"
    "DAList.lookup (staticVals staticThenDynamic) demoOID = Some (IString ''demo'')"
    "DAList.lookup (handlers staticThenDynamic) demoOID = Some counterHandler"
    by (simp_all add: entryCount_def entries_at staticThenDynamic_eq)
  ultimately show ?thesis using example_runs(1,2) by simp
qed

text \<open>
  C1, as the code has it. On an agent that has not been started, two registrations of
  one OID both return \<open>nil\<close>, and:
  \<^item> static then static: the static map holds the second value, the handler map is as
    before;
  \<^item> dynamic then dynamic: the handler map holds the second handler, the static map is
    as before;
  \<^item> static then dynamic, dynamic then static: the OID has both a static and a dynamic
    entry, each as registered, two entries in all.
  In every case each map holds one entry for the OID at most, and \<open>ListOIDs\<close> shows
  exactly one tag for it: "static" whenever the static map has the OID, "dynamic"
  otherwise.
\<close>

theorem same_OID_registrations:
  assumes "mu a = unlocked" and "server a = None"
  shows "(\<exists>a1 a2. RegisterStaticAbsolute oid t1 v1 a = Returns a1 None
           \<and> RegisterStaticAbsolute oid t2 v2 a1 = Returns a2 None
           \<and> DAList.lookup (staticVals a2) oid = Some v2
           \<and> handlers a2 = handlers a
           \<and> entryCount a2 oid = (if DAList.lookup (handlers a) oid = None then 1 else 2)
           \<and> listedTags a2 oid = [''static''])
       \<and> (\<exists>a1 a2. RegisterAbsolute oid t1 h1 a = Returns a1 None
           \<and> RegisterAbsolute oid t2 h2 a1 = Returns a2 None
           \<and> DAList.lookup (handlers a2) oid = Some h2
           \<and> staticVals a2 = staticVals a
           \<and> entryCount a2 oid = (if DAList.lookup (staticVals a) oid = None then 1 else 2)
           \<and> listedTags a2 oid
               = (if DAList.lookup (staticVals a) oid = None then [''dynamic'']
                  else [''static'']))
       \<and> (\<exists>a1 a2. RegisterStaticAbsolute oid t1 v1 a = Returns a1 None
           \<and> RegisterAbsolute oid t2 h2 a1 = Returns a2 None
           \<and> DAList.lookup (staticVals a2) oid = Some v1
           \<and> DAList.lookup (handlers a2) oid = Some h2
           \<and> entryCount a2 oid = 2
           \<and> listedTags a2 oid = [''static''])
       \<and> (\<exists>a1 a2. RegisterAbsolute oid t1 h1 a = Returns a1 None
           \<and> RegisterStaticAbsolute oid t2 v2 a1 = Returns a2 None
           \<and> DAList.lookup (handlers a2) oid = Some h1
           \<and> DAList.lookup (staticVals a2) oid = Some v2
           \<and> entryCount a2 oid = 2
           \<and> listedTags a2 oid = [''static''])"
  by (intro conjI static_then_static dynamic_then_dynamic static_then_dynamic
      dynamic_then_static assms)

text \<open>The same on the example agent: dynamic twice, and static then dynamic.\<close>

theorem same_OID_registrations_witness:
  "(\<exists>a1 a2. RegisterAbsolute demoOID OctetString counterHandler exampleAgent = Returns a1 None
           \<and> RegisterAbsolute demoOID Counter32 counterHandler a1 = Returns a2 None
           \<and> DAList.lookup (handlers a2) demoOID = Some counterHandler
           \<and> entryCount a2 demoOID = 1
           \<and> listedTags a2 demoOID = [''dynamic''])
   \<and> (\<exists>a1 a2. RegisterStaticAbsolute demoOID OctetString (IString ''demo'') exampleAgent
               = Returns a1 None
           \<and> RegisterAbsolute demoOID Counter32 counterHandler a1 = Returns a2 None
           \<and> DAList.lookup (staticVals a2) demoOID = Some (IString ''demo'')
           \<and> DAList.lookup (handlers a2) demoOID = Some counterHandler
           \<and> entryCount a2 demoOID = 2
           \<and> listedTags a2 demoOID = [''static''])"
proof -
  have m: "mu exampleAgent = unlocked" and s: "server exampleAgent = None" by simp_all
  from same_OID_registrations
         [OF m s, where oid = demoOID and ?t1.0 = OctetString and ?v1.0 = "IString ''demo''"
            and ?t2.0 = Counter32 and ?h1.0 = counterHandler and ?h2.0 = counterHandler]
  show ?thesis by simp blast
qed

subsection \<open>C2: registration after the start\<close>

text \<open>
  C2 states that after \<open>Start\<close> every \<open>RegisterAbsolute\<close>, \<open>RegisterStaticAbsolute\<close> and
  \<open>UnregisterAbsolute\<close> returns and rebuilds the transport's items. On the started
  example agent none of the three returns: each holds the write lock when it reaches the
  \<open>RLock\<close> of \<open>registerHandlers\<close>, and the items stay those of \<open>Start\<close> (the counter
  only).
\<close>

theorem started_registration_blocks:
  "Start None (final (Register ''3.1.0'' Counter32 counterHandler exampleAgent))
     = Returns startedAgent None
   \<and> RegisterAbsolute ''1.3.6.1.4.1.12345.2.1.0'' Integer counterHandler startedAgent
     = Blocks (startedAgent\<lparr>mu := \<lparr>writer = True, readers = 0\<rparr>,
         handlers := DAList.update ''1.3.6.1.4.1.12345.2.1.0'' counterHandler
                       (handlers startedAgent)\<rparr>)
   \<and> RegisterStaticAbsolute demoOID OctetString (IString ''demo'') startedAgent
     = Blocks (startedAgent\<lparr>mu := \<lparr>writer = True, readers = 0\<rparr>,
         staticVals := DAList.update demoOID (IString ''demo'') (staticVals startedAgent)\<rparr>)
   \<and> returned (UnregisterAbsolute counterOID startedAgent) = None
   \<and> map OID (boundOIDs (final (RegisterStaticAbsolute demoOID OctetString (IString ''demo'')
                                    startedAgent))) = [counterOID]"
proof -
  have m: "mu startedAgent = unlocked" by (simp add: startedAgent_eq)
  obtain srv where s: "server startedAgent = Some srv" by (simp add: startedAgent_eq)
  have "returned (UnregisterAbsolute counterOID startedAgent) = None"
    by (rule started_never_returns(3) [OF s]) (simp add: startedAgent_eq)
  moreover have "map OID (boundOIDs startedAgent) = [counterOID]"
    by (simp add: startedAgent_eq boundOIDs_def)
  ultimately show ?thesis
    by (simp add: RegisterAbsolute_started [OF m s] RegisterStaticAbsolute_started [OF m s]
        boundOIDs_def example_runs(4))
qed

subsection \<open>C3: the lock during a get\<close>

text \<open>
  C3 states that a producer is only ever invoked while the registry's lock is held in
  read mode. The example agent with the probing handler registered, once \<open>Start\<close> has
  returned, has a free mutex; the get of the registered OID in that state runs the
  handler, which finds no reader holding the lock.
\<close>

theorem producer_under_read_lock_counterexample:
  "Start None (final (RegisterAbsolute counterOID Gauge32 readersProbe
      (the (fst (NewAgent exampleConfig))))) = Returns probeStarted None
   \<and> mu probeStarted = unlocked
   \<and> map OID (boundOIDs probeStarted) = [counterOID]
   \<and> map (\<lambda>i. OnGet i (mu probeStarted, 0)) (boundOIDs probeStarted)
       = [((IUint 0, None), (unlocked, 1))]"
  using probe_runs
  by (simp add: probeStarted_eq boundOIDs_def dynamicOnGet_def readersProbe_def)

text \<open>
  C3, as the code has it. \<open>registerHandlers\<close> holds the read lock while it builds the
  callbacks, invokes no producer, and has released the lock when it returns. The callback
  bound for a dynamic entry takes no lock: it runs the producer in the very state in which
  the callback was entered, whatever the state \<open>m\<close> of the mutex then. After a rebuild
  from a free mutex the mutex is free, so a get made then runs the producer on the free
  mutex.
\<close>

theorem get_evaluation_takes_no_lock:
  assumes "mu a = unlocked" and "server a = Some srv" and "SubAgents srv = subAgent # rest"
    and "DAList.lookup (handlers a) oid = Some h"
  shows "\<exists>a'. registerHandlers a = Returns a' ()
           \<and> mu a' = unlocked
           \<and> (\<exists>i \<in> set (boundOIDs a'). OID i = oid
                \<and> (\<forall>m u. OnGet i (m, u)
                       = (case h (m, u) of
                            ((val, Some err), w') \<Rightarrow> ((INil, Some err), w')
                          | ((val, None), w') \<Rightarrow> ((val, None), w'))))"
proof -
  let ?a' = "final (registerHandlers a)"
  let ?i = "\<lparr>OID = oid, Type = OctetString, OnGet = dynamicOnGet h\<rparr>"
  have "(oid, h) \<in> set (DAList.impl_of (handlers a))"
    using assms(4) by (simp add: lookup_Some_iff)
  then have "?i \<in> set (boundOIDs ?a')"
    using boundOIDs_registerHandlers(3) [OF assms(1-3)] by (simp add: in_pduItems_dynamic)
  moreover have "\<forall>m u. OnGet ?i (m, u)
                   = (case h (m, u) of
                        ((val, Some err), w') \<Rightarrow> ((INil, Some err), w')
                      | ((val, None), w') \<Rightarrow> ((val, None), w'))"
    by (simp add: dynamicOnGet_def)
  moreover have "OID ?i = oid" by simp
  ultimately show ?thesis
    using boundOIDs_registerHandlers(1,2) [OF assms(1-3)] by blast
qed

text \<open>The same on the started example agent with the probing handler.\<close>

theorem get_evaluation_takes_no_lock_witness:
  "\<exists>a'. registerHandlers probeStarted = Returns a' ()
     \<and> mu a' = unlocked
     \<and> (\<exists>i \<in> set (boundOIDs a'). OID i = counterOID
          \<and> OnGet i (mu a', 0) = ((IUint 0, None), (unlocked, 1)))"
proof -
  have "\<exists>a'. registerHandlers probeStarted = Returns a' ()
          \<and> mu a' = unlocked
          \<and> (\<exists>i \<in> set (boundOIDs a'). OID i = counterOID
               \<and> (\<forall>m u. OnGet i (m, u)
                      = (case readersProbe (m, u) of
                           ((val, Some err), w') \<Rightarrow> ((INil, Some err), w')
                         | ((val, None), w') \<Rightarrow> ((val, None), w'))))"
    by (rule get_evaluation_takes_no_lock
          [of probeStarted
              "\<lparr>SubAgents = [\<lparr>CommunityIDs = [''public''],
                 OIDs = [\<lparr>OID = counterOID, Type = OctetString,
                           OnGet = dynamicOnGet readersProbe\<rparr>]\<rparr>]\<rparr>"
              "\<lparr>CommunityIDs = [''public''],
                 OIDs = [\<lparr>OID = counterOID, Type = OctetString,
                           OnGet = dynamicOnGet readersProbe\<rparr>]\<rparr>"
              "[]" counterOID readersProbe])
       (simp_all add: probeStarted_eq)
  then show ?thesis by (fastforce simp: readersProbe_def)
qed

subsection \<open>C4: the type tag of a binding\<close>

text \<open>
  C4 states that the item handed to the transport carries the type tag given at
  registration. The counter of the example is registered with \<open>Counter32\<close>; the item
  that \<open>Start\<close> binds for it has the tag \<open>OctetString\<close>, as every item has
  (lemma \<open>pduItems_Type\<close>).
\<close>

theorem bound_type_is_OctetString:
  "Register ''3.1.0'' Counter32 counterHandler exampleAgent
     = Returns (final (Register ''3.1.0'' Counter32 counterHandler exampleAgent)) None
   \<and> Start None (final (Register ''3.1.0'' Counter32 counterHandler exampleAgent))
       = Returns startedAgent None
   \<and> map (\<lambda>i. (OID i, Type i)) (boundOIDs startedAgent)
       = [(''1.3.6.1.4.1.12345.3.1.0'', OctetString)]"
  using example_runs(3,4) by (simp add: startedAgent_eq boundOIDs_def counterOID_def)

subsection \<open>C5: what a bound callback returns\<close>

text \<open>
  C5 states that after a static registration every get of the OID returns the value, and
  that after a dynamic registration each get of the OID invokes the producer exactly once.
  On the example agent one OID is registered as a static value and as the counter, in
  either order, and the agent is started: two callbacks are bound for that OID. The first
  runs the counter and returns 1, not the static value; the second returns the static
  value and leaves the counter at 0, so it does not invoke the producer.
\<close>

theorem two_callbacks_for_one_OID_counterexample:
  "RegisterAbsolute demoOID Integer counterHandler
       (final (RegisterStaticAbsolute demoOID OctetString (IString ''demo'') exampleAgent))
     = Returns staticThenDynamic None
   \<and> RegisterStaticAbsolute demoOID OctetString (IString ''demo'')
       (final (RegisterAbsolute demoOID Integer counterHandler exampleAgent))
     = Returns staticThenDynamic None
   \<and> Start None staticThenDynamic = Returns bothStarted None
   \<and> map OID (boundOIDs bothStarted) = [demoOID, demoOID]
   \<and> map (\<lambda>i. OnGet i 0) (boundOIDs bothStarted)
       = [((IUint 1, None), 1), ((IString ''demo'', None), 0)]"
proof -
  have "RegisterStaticAbsolute demoOID OctetString (IString ''demo'')
          (final (RegisterAbsolute demoOID Integer counterHandler exampleAgent))
        = Returns staticThenDynamic None"
    by (simp add: RegisterAbsolute_unstarted RegisterStaticAbsolute_unstarted
        staticThenDynamic_eq)
  moreover have "map OID (boundOIDs bothStarted) = [demoOID, demoOID]"
    "map (\<lambda>i. OnGet i 0) (boundOIDs bothStarted)
       = [((IUint 1, None), 1), ((IString ''demo'', None), 0)]"
    by (simp_all add: bothStarted_eq boundOIDs_def dynamicOnGet_def staticOnGet_def
        counterHandler_def)
  ultimately show ?thesis using example_runs(2,5) by simp
qed

text \<open>
  C5, as the code has it. Let an agent that has not been started register an OID and
  then start. After \<open>RegisterStaticAbsolute oid t v\<close> the items bound for the transport
  hold a callback for \<open>oid\<close> that returns \<open>v\<close> and the \<open>nil\<close> error in every state of the
  world and leaves the world as it is, so any number of calls return \<open>v\<close>. After
  \<open>RegisterAbsolute oid t h\<close> they hold a callback for \<open>oid\<close> that, on each call, runs
  \<open>h\<close> once on the current state and returns its value with the \<open>nil\<close> error, or \<open>nil\<close>
  with its error; nothing is kept between calls. This callback is the only one bound for
  \<open>oid\<close> when the other map has no entry for \<open>oid\<close>; when it has one, exactly two
  callbacks are bound for \<open>oid\<close>, this one and the callback of that other entry.
\<close>

theorem callbacks_bound_before_start:
  assumes "mu a = unlocked" and "server a = None"
  shows "(\<exists>a1 a2 r. RegisterStaticAbsolute oid t v a = Returns a1 None
           \<and> Start listen a1 = Returns a2 r
           \<and> (\<exists>i \<in> set (boundOIDs a2). OID i = oid \<and> (\<forall>w. OnGet i w = ((v, None), w)))
           \<and> length (filter (\<lambda>i. OID i = oid) (boundOIDs a2))
               = (if DAList.lookup (handlers a) oid = None then 1 else 2)
           \<and> (\<forall>i \<in> set (boundOIDs a2). OID i = oid \<longrightarrow>
                 (\<forall>w. OnGet i w = ((v, None), w))
                 \<or> (\<exists>h'. DAList.lookup (handlers a) oid = Some h' \<and> OnGet i = dynamicOnGet h')))
       \<and> (\<exists>a1 a2 r. RegisterAbsolute oid t' h a = Returns a1 None
           \<and> Start listen a1 = Returns a2 r
           \<and> (\<exists>i \<in> set (boundOIDs a2). OID i = oid
                \<and> (\<forall>w. OnGet i w
                       = (case h w of
                            ((val, Some err), w') \<Rightarrow> ((INil, Some err), w')
                          | ((val, None), w') \<Rightarrow> ((val, None), w'))))
           \<and> length (filter (\<lambda>i. OID i = oid) (boundOIDs a2))
               = (if DAList.lookup (staticVals a) oid = None then 1 else 2)
           \<and> (\<forall>i \<in> set (boundOIDs a2). OID i = oid \<longrightarrow>
                 (\<forall>w. OnGet i w
                       = (case h w of
                            ((val, Some err), w') \<Rightarrow> ((INil, Some err), w')
                          | ((val, None), w') \<Rightarrow> ((val, None), w')))
                 \<or> (\<exists>v'. DAList.lookup (staticVals a) oid = Some v'
                          \<and> OnGet i = staticOnGet v')))"
  by (intro conjI bound_after_static bound_after_dynamic assms)

text \<open>
  On the example agent: a static value alone, read at two states of the world; and the
  counter registered for an OID that already has a static value, where two callbacks are
  bound and two consecutive calls of the counter's callback return 1 and then 2.
\<close>

theorem callbacks_bound_before_start_witness:
  "(\<exists>a1 a2 r. RegisterStaticAbsolute counterOID OctetString (IString ''demo'') exampleAgent
                = Returns a1 None
        \<and> Start None a1 = Returns a2 r
        \<and> (\<exists>i \<in> set (boundOIDs a2). OID i = counterOID
             \<and> OnGet i 0 = ((IString ''demo'', None), 0)
             \<and> OnGet i 1 = ((IString ''demo'', None), 1))
        \<and> length (filter (\<lambda>i. OID i = counterOID) (boundOIDs a2)) = 1)
   \<and> (\<exists>a1 a2 r. RegisterAbsolute demoOID Integer counterHandler
                  (final (RegisterStaticAbsolute demoOID OctetString (IString ''demo'')
                            exampleAgent))
                = Returns a1 None
        \<and> Start None a1 = Returns a2 r
        \<and> (\<exists>i \<in> set (boundOIDs a2). OID i = demoOID
             \<and> OnGet i 0 = ((IUint 1, None), 1)
             \<and> OnGet i 1 = ((IUint 2, None), 2))
        \<and> length (filter (\<lambda>i. OID i = demoOID) (boundOIDs a2)) = 2)"
proof -
  let ?b = "final (RegisterStaticAbsolute demoOID OctetString (IString ''demo'') exampleAgent)"
  have m: "mu exampleAgent = unlocked" and s: "server exampleAgent = None" by simp_all
  have b: "?b = exampleAgent\<lparr>staticVals := DAList.update demoOID (IString ''demo'') DAList.empty\<rparr>"
    by (simp add: RegisterStaticAbsolute_unstarted)
  have mb: "mu ?b = unlocked" and sb: "server ?b = None"
    and lb: "DAList.lookup (staticVals ?b) demoOID \<noteq> None"
    by (simp_all add: b)
  from callbacks_bound_before_start
         [OF m s, where oid = counterOID and t = OctetString and v = "IString ''demo''"
            and listen = None and t' = Counter32 and h = counterHandler]
  have 1: "\<exists>a1 a2 r. RegisterStaticAbsolute counterOID OctetString (IString ''demo'') exampleAgent
                = Returns a1 None
        \<and> Start None a1 = Returns a2 r
        \<and> (\<exists>i \<in> set (boundOIDs a2). OID i = counterOID
             \<and> (\<forall>w. OnGet i w = ((IString ''demo'', None), w)))
        \<and> length (filter (\<lambda>i. OID i = counterOID) (boundOIDs a2)) = 1"
    by simp blast
  from callbacks_bound_before_start
         [OF mb sb, where oid = demoOID and t = OctetString and v = "IString ''demo''"
            and listen = None and t' = Integer and h = counterHandler]
  have 2: "\<exists>a1 a2 r. RegisterAbsolute demoOID Integer counterHandler ?b = Returns a1 None
        \<and> Start None a1 = Returns a2 r
        \<and> (\<exists>i \<in> set (boundOIDs a2). OID i = demoOID
             \<and> (\<forall>w. OnGet i w = ((IUint (Suc w), None), Suc w)))
        \<and> length (filter (\<lambda>i. OID i = demoOID) (boundOIDs a2)) = 2"
    using lb by (simp add: counterHandler_def) blast
  from 1 2 show ?thesis by (simp add: numeral_2_eq_2) blast
qed

subsection \<open>C6: unregistering\<close>

text \<open>
  C6 states that \<open>UnregisterAbsolute\<close> returns the not-found error exactly when the OID has
  no entry, and otherwise removes the entry and succeeds. The lemmas
  \<open>UnregisterAbsolute_absent\<close>, \<open>UnregisterAbsolute_present\<close>,
  \<open>UnregisterAbsolute_error_iff\<close> and \<open>registration_never_errs\<close> show this for an agent
  that has not been started. On the started example agent the counter's OID is removed
  from the handler map, but the call does not return: it waits in \<open>registerHandlers\<close>
  for the lock it holds.
\<close>

theorem unregister_started_blocks:
  "Start None (final (Register ''3.1.0'' Counter32 counterHandler exampleAgent))
     = Returns startedAgent None
   \<and> DAList.lookup (handlers startedAgent) counterOID = Some counterHandler
   \<and> UnregisterAbsolute counterOID startedAgent
       = Blocks (startedAgent\<lparr>mu := \<lparr>writer = True, readers = 0\<rparr>,
                               handlers := DAList.empty\<rparr>)"
proof -
  have m: "mu startedAgent = unlocked" by (simp add: startedAgent_eq)
  have p: "DAList.lookup (handlers startedAgent) counterOID = Some counterHandler"
    by (simp add: startedAgent_eq)
  have d: "DAList.delete counterOID (handlers startedAgent) = DAList.empty"
    by (simp add: startedAgent_eq alist_eq_iff delete.rep_eq update.rep_eq empty.rep_eq)
  have e: "DAList.delete counterOID (staticVals startedAgent) = staticVals startedAgent"
    by (simp add: startedAgent_eq delete_absent)
  have "server startedAgent \<noteq> None" by (simp add: startedAgent_eq)
  then show ?thesis using p
    by (auto simp add: UnregisterAbsolute_present [OF m] d e example_runs(4))
qed

subsection \<open>C7: the PEN check\<close>

text \<open>
  C7. \<open>NewAgent\<close> on a configuration whose PEN is zero returns the error
  "PEN (Private Enterprise Number) is required" and no agent (\<open>nil\<close>); on every
  configuration whose PEN is not zero it returns an agent and the \<open>nil\<close> error.
\<close>

theorem NewAgent_PEN_check:
  "(PEN cfg = 0 \<longrightarrow>
      (NewAgent cfg :: 'w Agent option \<times> error option)
        = (None, Some (Errorf ''PEN (Private Enterprise Number) is required'')))
   \<and> (PEN cfg \<noteq> 0 \<longrightarrow>
      (\<exists>a. (NewAgent cfg :: 'w Agent option \<times> error option) = (Some a, None)))"
  by (simp add: NewAgent_def Let_def)

theorem NewAgent_PEN_check_witness:
  "(NewAgent \<lparr>PEN = 0, ListenAddr = ''0.0.0.0:1161'', Community = ''public'', LogLevel = 0\<rparr>
      :: unit Agent option \<times> error option)
     = (None, Some (Errorf ''PEN (Private Enterprise Number) is required''))
   \<and> (\<exists>a. (NewAgent \<lparr>PEN = 12345, ListenAddr = ''0.0.0.0:1161'', Community = ''public'',
                       LogLevel = 0\<rparr> :: unit Agent option \<times> error option) = (Some a, None))"
  using NewAgent_PEN_check
          [of "\<lparr>PEN = 0, ListenAddr = ''0.0.0.0:1161'', Community = ''public'', LogLevel = 0\<rparr>"]
        NewAgent_PEN_check
          [of "\<lparr>PEN = 12345, ListenAddr = ''0.0.0.0:1161'', Community = ''public'',
                LogLevel = 0\<rparr>"]
  by simp


subsection \<open>C8: the enterprise prefix\<close>

text \<open>
  C8. For a PEN that is not zero, \<open>NewAgent\<close> builds an agent whose prefix is
  "1.3.6.1.4.1." followed by the decimal rendering of the PEN (lemma
  \<open>parseDecimal_decimal\<close>: read back, the rendering gives the number). \<open>Register\<close> and
  \<open>RegisterStatic\<close> of a relative OID \<open>r\<close> store the entry under the prefix, a dot and
  \<open>r\<close>. No method changes the prefix.
\<close>

theorem enterprise_prefix:
  assumes "PEN cfg \<noteq> 0"
  shows "(\<exists>a. (NewAgent cfg :: 'w Agent option \<times> error option) = (Some a, None)
            \<and> GetPrefix a = ''1.3.6.1.4.1.'' @ decimal (unat (PEN cfg)))
       \<and> (mu b = unlocked \<longrightarrow>
            DAList.lookup (handlers (final (Register r t h b))) (GetPrefix b @ ''.'' @ r) = Some h
            \<and> DAList.lookup (staticVals (final (RegisterStatic r t v b))) (GetPrefix b @ ''.'' @ r)
                = Some v)
       \<and> GetPrefix (final (RegisterAbsolute oid t h b)) = GetPrefix b
       \<and> GetPrefix (final (RegisterStaticAbsolute oid t v b)) = GetPrefix b
       \<and> GetPrefix (final (UnregisterAbsolute oid b)) = GetPrefix b
       \<and> GetPrefix (final (Register r t h b)) = GetPrefix b
       \<and> GetPrefix (final (RegisterStatic r t v b)) = GetPrefix b
       \<and> GetPrefix (final (Unregister r b)) = GetPrefix b
       \<and> GetPrefix (final (Start listen b)) = GetPrefix b
       \<and> GetPrefix (final (ListOIDs b)) = GetPrefix b"
proof (intro conjI impI)
  show "\<exists>a. (NewAgent cfg :: 'w Agent option \<times> error option) = (Some a, None)
            \<and> GetPrefix a = ''1.3.6.1.4.1.'' @ decimal (unat (PEN cfg))"
    using assms by (simp add: NewAgent_def Let_def GetPrefix_def)
qed (rule prefix_fixed Register_entry RegisterStatic_entry, assumption?)+

text \<open>
  For PEN 12345 the prefix is "1.3.6.1.4.1.12345", and the relative OIDs "1.1.0" and
  "3.1.0" of the example are stored under "1.3.6.1.4.1.12345.1.1.0" and
  "1.3.6.1.4.1.12345.3.1.0".
\<close>

theorem enterprise_prefix_witness:
  "(NewAgent exampleConfig :: nat Agent option \<times> error option) = (Some exampleAgent, None)
   \<and> GetPrefix exampleAgent = ''1.3.6.1.4.1.12345''
   \<and> DAList.lookup
        (staticVals (final (RegisterStatic ''1.1.0'' OctetString (IString ''My SNMP Agent v1.0'')
                              exampleAgent)))
        ''1.3.6.1.4.1.12345.1.1.0'' = Some (IString ''My SNMP Agent v1.0'')
   \<and> DAList.lookup
        (handlers (final (Register ''3.1.0'' Counter32 counterHandler exampleAgent)))
        ''1.3.6.1.4.1.12345.3.1.0'' = Some counterHandler"
proof -
  have p: "PEN exampleConfig \<noteq> 0" and u: "unat (PEN exampleConfig) = 12345"
    by (simp_all add: exampleConfig_def)
  have m: "mu exampleAgent = unlocked" by simp
  have "(\<exists>a. (NewAgent exampleConfig :: nat Agent option \<times> error option) = (Some a, None)
            \<and> GetPrefix a = ''1.3.6.1.4.1.'' @ decimal (unat (PEN exampleConfig)))"
    and "DAList.lookup
           (staticVals (final (RegisterStatic ''1.1.0'' OctetString
                                 (IString ''My SNMP Agent v1.0'') exampleAgent)))
           (GetPrefix exampleAgent @ ''.'' @ ''1.1.0'') = Some (IString ''My SNMP Agent v1.0'')"
    using enterprise_prefix
            [OF p, where ?'w = nat and b = exampleAgent and r = "''1.1.0''" and t = OctetString
               and v = "IString ''My SNMP Agent v1.0''" and h = counterHandler] m
    by blast+
  moreover have "DAList.lookup
           (handlers (final (Register ''3.1.0'' Counter32 counterHandler exampleAgent)))
           (GetPrefix exampleAgent @ ''.'' @ ''3.1.0'') = Some counterHandler"
    using enterprise_prefix
            [OF p, where ?'w = nat and b = exampleAgent and r = "''3.1.0''" and t = Counter32
               and h = counterHandler] m
    by blast
  moreover have "GetPrefix exampleAgent = ''1.3.6.1.4.1.12345''"
    by (simp add: GetPrefix_def)
  ultimately show ?thesis
    by (simp add: u decimal_12345) (auto simp: exampleAgent_def)
qed

subsection \<open>C9: what a registration leaves alone\<close>

text \<open>
  C9. \<open>RegisterStaticAbsolute\<close> leaves the handler map and the prefix as they are and
  changes the static map by the one update (once it has the lock), and
  \<open>RegisterAbsolute\<close> leaves the static map and the prefix as they are and changes the
  handler map by the one update. This holds for the agent the call leaves behind whether
  it returns or waits.
\<close>

theorem registration_frame:
  "handlers (final (RegisterStaticAbsolute oid t v a)) = handlers a
   \<and> oidPrefix (final (RegisterStaticAbsolute oid t v a)) = oidPrefix a
   \<and> staticVals (final (RegisterStaticAbsolute oid t v a))
       = (if Lock (mu a) = None then staticVals a else DAList.update oid v (staticVals a))
   \<and> staticVals (final (RegisterAbsolute oid t h a)) = staticVals a
   \<and> oidPrefix (final (RegisterAbsolute oid t h a)) = oidPrefix a
   \<and> handlers (final (RegisterAbsolute oid t h a))
       = (if Lock (mu a) = None then handlers a else DAList.update oid h (handlers a))"
  using RegisterStaticAbsolute_frame [of oid t v a] RegisterAbsolute_frame [of oid t h a]
  by simp

subsection \<open>C10: unregistering an OID that both maps hold\<close>

text \<open>
  C10 states that one \<open>UnregisterAbsolute\<close> of an OID held by both maps removes both
  entries and returns \<open>nil\<close>. Lemma \<open>UnregisterAbsolute_present\<close> shows it for an agent that
  has not been started. On the started example agent that holds the OID in both maps, both
  entries are removed, but the call does not return: it waits in \<open>registerHandlers\<close>
  for the lock it holds.
\<close>

theorem unregister_both_started_blocks:
  "Start None staticThenDynamic = Returns bothStarted None
   \<and> DAList.lookup (handlers bothStarted) demoOID = Some counterHandler
   \<and> DAList.lookup (staticVals bothStarted) demoOID = Some (IString ''demo'')
   \<and> UnregisterAbsolute demoOID bothStarted
       = Blocks (bothStarted\<lparr>mu := \<lparr>writer = True, readers = 0\<rparr>,
                              handlers := DAList.empty, staticVals := DAList.empty\<rparr>)"
proof -
  have m: "mu bothStarted = unlocked" by (simp add: bothStarted_eq staticThenDynamic_eq)
  have p: "DAList.lookup (handlers bothStarted) demoOID = Some counterHandler"
    "DAList.lookup (staticVals bothStarted) demoOID = Some (IString ''demo'')"
    by (simp_all add: bothStarted_eq staticThenDynamic_eq)
  have d: "DAList.delete demoOID (handlers bothStarted) = DAList.empty"
    "DAList.delete demoOID (staticVals bothStarted) = DAList.empty"
    by (simp_all add: bothStarted_eq staticThenDynamic_eq alist_eq_iff delete.rep_eq
        update.rep_eq empty.rep_eq)
  have "server bothStarted \<noteq> None" by (simp add: bothStarted_eq)
  then show ?thesis using p
    by (auto simp add: UnregisterAbsolute_present [OF m] d example_runs(5))
qed

end
